theory Spec2Isabelle
  imports Main
begin

section \<open>Python values used by \<^verbatim>\<open>Arabycia.py\<close>\<close>

text \<open>
  A Python \<^verbatim>\<open>str\<close> is a sequence of Unicode code points, and \<^verbatim>\<open>len\<close> and
  subscription count code points. A string is therefore modelled as the list of its code
  points; \<open>py\<close> turns an ASCII literal of the source (\<^verbatim>\<open>'transl'\<close>) into that form.
\<close>

type_synonym pystr = "nat list"

definition py :: "string \<Rightarrow> pystr" where
  "py s = map of_char s"

text \<open>
  The exceptions that the statements of the class can raise by themselves.
  \<open>InputError\<close> is the "no input provided" condition of the specification; no
  statement of the source raises it, an external collaborator might.
\<close>

datatype py_error = TypeError | ValueError | KeyError | IndexError | InputError

text \<open>
  A subscript is an integer or a string. A candidate solution of the morphological
  analyzer is a \<^verbatim>\<open>dict\<close> whose values are strings; it is kept as the list of its
  items in iteration order. A Python \<^verbatim>\<open>dict\<close> holds every key once, which
  \<open>is_dict\<close> says of such a list.
\<close>

datatype pykey = KInt int | KStr pystr

type_synonym cand = "(pykey \<times> pystr) list"

definition is_dict :: "cand \<Rightarrow> bool" where
  "is_dict d = distinct (map fst d)"

text \<open>\<^verbatim>\<open>d[k]\<close> on a dict: the value stored under \<open>k\<close>, or \<^verbatim>\<open>KeyError\<close>.\<close>

definition subscript_dict :: "cand \<Rightarrow> pykey \<Rightarrow> py_error + pystr" where
  "subscript_dict d k = (case map_of d k of None \<Rightarrow> Inl KeyError | Some v \<Rightarrow> Inr v)"

text \<open>
  \<^verbatim>\<open>s[k]\<close> on a string: an integer subscript selects one code point (negative
  subscripts count from the end) or raises \<^verbatim>\<open>IndexError\<close>; a string subscript raises
  \<^verbatim>\<open>TypeError\<close> (string indices must be integers).
\<close>

fun subscript_str :: "pystr \<Rightarrow> pykey \<Rightarrow> py_error + pystr" where
  "subscript_str s (KInt i) =
     (let n = int (length s); j = (if i < 0 then i + n else i)
      in if 0 \<le> j \<and> j < n then Inr [s ! nat j] else Inl IndexError)"
| "subscript_str s (KStr k) = Inl TypeError"

section \<open>The records built by the class\<close>

text \<open>
  An entry of \<^verbatim>\<open>processed_data\<close>: the dict
  \<^verbatim>\<open>{'transl': eg, 'arabic': ar, 'solution': solution, 'pos': pos, 'gloss': gloss}\<close>.
\<close>

record processed =
  transl :: pystr
  arabic :: pystr
  solution :: "pystr list"
  pos :: "pystr list"
  gloss :: "pystr list"

text \<open>
  An entry of \<^verbatim>\<open>analyzed_data\<close>: the dict
  \<^verbatim>\<open>{'arabic': word, 'transl': tans, 'root': root, 'root_transl': rtrans, 'candidates': possible_root}\<close>.
  Its first two fields carry a prefix, their names being those of the record above.
\<close>

record extracted =
  x_arabic :: pystr
  x_transl :: pystr
  root :: pystr
  root_transl :: pystr
  candidates :: "pystr list"

text \<open>
  The attributes of an \<^verbatim>\<open>Arabica\<close> object as \<^verbatim>\<open>self\<close> reads them.
  \<^verbatim>\<open>raw_data\<close> is \<^verbatim>\<open>None\<close> until a text is given.
\<close>

record arabica =
  raw_data :: "pystr option"
  analyzed_data :: "extracted list"
  full_analyzed_data :: "cand list list"
  processed_data :: "processed list"
  ambig_words :: "pystr list"

text \<open>
  The external collaborators, taken as parameters: \<^verbatim>\<open>pyaramorph.Analyzer.analyze_text\<close>
  (a pair of the per-token candidate lists and of the secondary candidate strings, or an
  exception), \<^verbatim>\<open>nltk.ISRIStemmer.stem\<close>, and the two Buckwalter tables
  \<^verbatim>\<open>uni2buck\<close> and \<^verbatim>\<open>buck2uni\<close>.
\<close>

record collab =
  analyzer :: "pystr option \<Rightarrow> py_error + (cand list list \<times> pystr list)"
  stemmer :: "pystr \<Rightarrow> pystr"
  uni2buck :: "pystr \<Rightarrow> pystr"
  buck2uni :: "pystr \<Rightarrow> pystr"

section \<open>\<^verbatim>\<open>data_process\<close>\<close>

text \<open>
  The body of the innermost loop, for one item \<^verbatim>\<open>k, v\<close> of a candidate: five
  independent \<^verbatim>\<open>if\<close> statements, in the order of the source. The record under
  construction holds \<^verbatim>\<open>eg\<close>, \<^verbatim>\<open>ar\<close>, \<^verbatim>\<open>solution\<close>, \<^verbatim>\<open>pos\<close> and
  \<^verbatim>\<open>gloss\<close>.
\<close>

definition item_step :: "processed \<Rightarrow> pykey \<times> pystr \<Rightarrow> processed" where
  "item_step acc kv =
     (let k = fst kv; v = snd kv;
          a1 = (if k = KStr (py ''transl'') then acc\<lparr>transl := v\<rparr> else acc);
          a2 = (if k = KStr (py ''arabic'') then a1\<lparr>arabic := v\<rparr> else a1);
          a3 = (if k = KStr (py ''solution'') then a2\<lparr>solution := solution a2 @ [v]\<rparr> else a2);
          a4 = (if k = KStr (py ''pos'') then a3\<lparr>pos := pos a3 @ [v]\<rparr> else a3);
          a5 = (if k = KStr (py ''gloss'') then a4\<lparr>gloss := gloss a4 @ [v]\<rparr> else a4)
      in a5)"

text \<open>The loop over the items of one candidate, and the loop over the candidates of a token.\<close>

definition cand_step :: "processed \<Rightarrow> cand \<Rightarrow> processed" where
  "cand_step acc c = foldl item_step acc c"

definition token_init :: processed where
  "token_init = \<lparr>transl = [], arabic = [], solution = [], pos = [], gloss = []\<rparr>"

definition token_record :: "cand list \<Rightarrow> processed" where
  "token_record cands = foldl cand_step token_init cands"

text \<open>The outer loop appends one record per token; the result replaces \<^verbatim>\<open>processed_data\<close>.\<close>

definition data_process :: "arabica \<Rightarrow> arabica" where
  "data_process st = st\<lparr>processed_data := map token_record (full_analyzed_data st)\<rparr>"

text \<open>The analyzer's contract: a candidate carries the five expected keys.\<close>

definition five_keys :: "pykey list" where
  "five_keys = map (\<lambda>s. KStr (py s)) [''transl'', ''arabic'', ''solution'', ''pos'', ''gloss'']"

definition has_keys :: "cand \<Rightarrow> bool" where
  "has_keys c = (is_dict c \<and> list_all (\<lambda>k. k \<in> set (map fst c)) five_keys)"

text \<open>The values that the items of a candidate hold under one key, in iteration order.\<close>

definition values_at :: "pykey \<Rightarrow> cand \<Rightarrow> pystr list" where
  "values_at k c = map snd (filter (\<lambda>kv. fst kv = k) c)"

section \<open>The thin wrappers\<close>

text \<open>
  \<^verbatim>\<open>stem\<close>, \<^verbatim>\<open>transliteration\<close> and \<^verbatim>\<open>reverse_transliteration\<close> delegate;
  the \<^verbatim>\<open>str(...)\<close> around the stemmer's result leaves a string as it is.
\<close>

definition stem :: "collab \<Rightarrow> pystr \<Rightarrow> pystr" where
  "stem c word = stemmer c word"

definition transliteration :: "collab \<Rightarrow> pystr \<Rightarrow> pystr" where
  "transliteration c s = uni2buck c s"

definition reverse_transliteration :: "collab \<Rightarrow> pystr \<Rightarrow> pystr" where
  "reverse_transliteration c s = buck2uni c s"

section \<open>\<^verbatim>\<open>analyze_text\<close>\<close>

text \<open>
  A method returns its value or the exception it raised, together with the object as the
  method left it: what was assigned or appended before an exception stays.

  \<^verbatim>\<open>analyze_text\<close> hands \<^verbatim>\<open>self.raw_data\<close> to the analyzer as it is, keeps
  element 0 of the result in \<^verbatim>\<open>full_analyzed_data\<close>, runs \<^verbatim>\<open>data_process\<close>
  and returns \<^verbatim>\<open>full_analyzed_data\<close>.
\<close>

definition analyze_text :: "collab \<Rightarrow> arabica \<Rightarrow> (py_error + cand list list) \<times> arabica" where
  "analyze_text c st =
     (case analyzer c (raw_data st) of
        Inl e \<Rightarrow> (Inl e, st)
      | Inr data \<Rightarrow>
          (let st1 = st\<lparr>full_analyzed_data := fst data\<rparr>;
               st2 = data_process st1
           in (Inr (full_analyzed_data st2), st2)))"

section \<open>\<^verbatim>\<open>pam_stem\<close>\<close>

text \<open>Element 1 of the analysis of the isolated word, each entry reverse-transliterated.\<close>

definition pam_stem :: "collab \<Rightarrow> pystr \<Rightarrow> py_error + pystr list" where
  "pam_stem c s =
     (case analyzer c (Some s) of
        Inl e \<Rightarrow> Inl e
      | Inr data \<Rightarrow> Inr (map (reverse_transliteration c) (snd data)))"

section \<open>\<^verbatim>\<open>extract_data\<close>\<close>

text \<open>
  \<^verbatim>\<open>data, _ = self.analyze_text()\<close> unpacks the list that \<^verbatim>\<open>analyze_text\<close>
  returns into two names: a list of any other length raises \<^verbatim>\<open>ValueError\<close>.
\<close>

definition unpack2 :: "'a list \<Rightarrow> py_error + ('a \<times> 'a)" where
  "unpack2 xs = (case xs of [a, b] \<Rightarrow> Inr (a, b) | _ \<Rightarrow> Inl ValueError)"

text \<open>
  The statements of the loop body up to the \<^verbatim>\<open>append\<close>, for the element
  \<^verbatim>\<open>data[i]\<close>. After the unpacking \<^verbatim>\<open>data\<close> is the first element of the
  analysis, so \<^verbatim>\<open>data[i]\<close> is a candidate dict: \<^verbatim>\<open>data[i][0]\<close> looks the key
  \<^verbatim>\<open>0\<close> up in it, and \<^verbatim>\<open>['transl']\<close> subscripts the value found.
\<close>

definition extract_record :: "collab \<Rightarrow> cand \<Rightarrow> py_error + extracted" where
  "extract_record c d =
     (case subscript_dict d (KInt 0) of Inl e \<Rightarrow> Inl e | Inr d0 \<Rightarrow>
      case subscript_str d0 (KStr (py ''transl'')) of Inl e \<Rightarrow> Inl e | Inr tans \<Rightarrow>
      case subscript_dict d (KInt 0) of Inl e \<Rightarrow> Inl e | Inr d1 \<Rightarrow>
      case subscript_str d1 (KStr (py ''arabic'')) of Inl e \<Rightarrow> Inl e | Inr word \<Rightarrow>
      case subscript_dict d (KInt 0) of Inl e \<Rightarrow> Inl e | Inr d2 \<Rightarrow>
      case subscript_str d2 (KStr (py ''arabic'')) of Inl e \<Rightarrow> Inl e | Inr w2 \<Rightarrow>
      let root = stem c w2 in
      case pam_stem c word of Inl e \<Rightarrow> Inl e | Inr possible_root \<Rightarrow>
      let rtrans = transliteration c root in
      Inr \<lparr>x_arabic = word, x_transl = tans, root = root, root_transl = rtrans,
           candidates = possible_root\<rparr>)"

text \<open>The loop \<^verbatim>\<open>for i in range(0, len(data))\<close>: one \<^verbatim>\<open>append\<close> per round.\<close>

fun extract_loop :: "collab \<Rightarrow> cand list \<Rightarrow> arabica \<Rightarrow> (py_error + unit) \<times> arabica" where
  "extract_loop c [] st = (Inr (), st)"
| "extract_loop c (d # ds) st =
     (case extract_record c d of
        Inl e \<Rightarrow> (Inl e, st)
      | Inr r \<Rightarrow> extract_loop c ds (st\<lparr>analyzed_data := analyzed_data st @ [r]\<rparr>))"

definition extract_data :: "collab \<Rightarrow> arabica \<Rightarrow> (py_error + extracted list) \<times> arabica" where
  "extract_data c st =
     (case analyze_text c st of
        (Inl e, st1) \<Rightarrow> (Inl e, st1)
      | (Inr full, st1) \<Rightarrow>
          (case unpack2 full of
             Inl e \<Rightarrow> (Inl e, st1)
           | Inr (data, _) \<Rightarrow>
               (case extract_loop c data st1 of
                  (Inl e, st2) \<Rightarrow> (Inl e, st2)
                | (Inr _, st2) \<Rightarrow> (Inr (analyzed_data st2), st2))))"

section \<open>\<^verbatim>\<open>search\<close>\<close>

text \<open>
  The key is stemmed and transliterated, the text is extracted again, and the
  \<^verbatim>\<open>arabic\<close> fields of the records whose \<^verbatim>\<open>root_transl\<close> is that key are
  returned as a set. The \<^verbatim>\<open>print\<close> of the result is left out.
\<close>

definition search :: "collab \<Rightarrow> pystr \<Rightarrow> arabica \<Rightarrow> (py_error + pystr set) \<times> arabica" where
  "search c key st =
     (let key' = transliteration c (stem c key) in
      case extract_data c st of
        (Inl e, st1) \<Rightarrow> (Inl e, st1)
      | (Inr data, st1) \<Rightarrow>
          (Inr (set (map x_arabic (filter (\<lambda>r. root_transl r = key') data))), st1))"

section \<open>\<^verbatim>\<open>ambig\<close>\<close>

text \<open>The inner loop: \<^verbatim>\<open>temp.append(sol[2])\<close> for every solution string.\<close>

fun position2 :: "pystr list \<Rightarrow> pystr list \<Rightarrow> py_error + pystr list" where
  "position2 temp [] = Inr temp"
| "position2 temp (sol # sols) =
     (case subscript_str sol (KInt 2) of
        Inl e \<Rightarrow> Inl e
      | Inr ch \<Rightarrow> position2 (temp @ [ch]) sols)"

text \<open>
  The outer loop over \<^verbatim>\<open>processed_data\<close>; \<^verbatim>\<open>len(set(temp))\<close> is the number of
  distinct entries of \<^verbatim>\<open>temp\<close>.
\<close>

fun ambig_loop :: "processed list \<Rightarrow> arabica \<Rightarrow> (py_error + unit) \<times> arabica" where
  "ambig_loop [] st = (Inr (), st)"
| "ambig_loop (w # ws) st =
     (case position2 [] (solution w) of
        Inl e \<Rightarrow> (Inl e, st)
      | Inr temp \<Rightarrow>
          ambig_loop ws
            (if length (remdups temp) > 1
             then st\<lparr>ambig_words := ambig_words st @ [arabic w]\<rparr>
             else st))"

definition ambig :: "arabica \<Rightarrow> (py_error + unit) \<times> arabica" where
  "ambig st = ambig_loop (processed_data st) st"

text \<open>
  The condition under which a record is reported: the code points at position 2 of its
  solution strings take more than one value.
\<close>

definition disagree_at_2 :: "processed \<Rightarrow> bool" where
  "disagree_at_2 w = (card ((\<lambda>sol. sol ! 2) ` set (solution w)) > 1)"

definition long_enough :: "processed \<Rightarrow> bool" where
  "long_enough w = list_all (\<lambda>sol. 3 \<le> length sol) (solution w)"

section \<open>Several objects of the class\<close>

text \<open>
  The class body binds \<^verbatim>\<open>analyzed_data = []\<close> and \<^verbatim>\<open>ambig_words = []\<close> once, as
  class attributes. No method assigns either name on \<^verbatim>\<open>self\<close>; the methods only call
  \<^verbatim>\<open>append\<close> on what \<^verbatim>\<open>self.analyzed_data\<close> and \<^verbatim>\<open>self.ambig_words\<close> read,
  which is the list object of the class for every instance. \<^verbatim>\<open>raw_data\<close>,
  \<^verbatim>\<open>full_analyzed_data\<close> and \<^verbatim>\<open>processed_data\<close> are assigned on \<^verbatim>\<open>self\<close>
  and so belong to the instance; until then an instance reads the class's \<^verbatim>\<open>None\<close>
  and empty lists, which nothing mutates.
\<close>

record own =
  own_raw_data :: "pystr option"
  own_full_analyzed_data :: "cand list list"
  own_processed_data :: "processed list"

record world =
  cls_analyzed_data :: "extracted list"
  cls_ambig_words :: "pystr list"
  instances :: "nat \<Rightarrow> own"

text \<open>\<^verbatim>\<open>Arabica(raw_data)\<close>: a fresh instance.\<close>

definition new_own :: "pystr option \<Rightarrow> own" where
  "new_own raw = \<lparr>own_raw_data = raw, own_full_analyzed_data = [], own_processed_data = []\<rparr>"

text \<open>What \<^verbatim>\<open>self\<close> reads through instance \<open>i\<close>.\<close>

definition self_view :: "world \<Rightarrow> nat \<Rightarrow> arabica" where
  "self_view w i =
     \<lparr>raw_data = own_raw_data (instances w i),
      analyzed_data = cls_analyzed_data w,
      full_analyzed_data = own_full_analyzed_data (instances w i),
      processed_data = own_processed_data (instances w i),
      ambig_words = cls_ambig_words w\<rparr>"

text \<open>
  Running a method on instance \<open>i\<close>: the appended lists are written to the class, the
  assigned attributes to the instance.
\<close>

definition write_back :: "world \<Rightarrow> nat \<Rightarrow> arabica \<Rightarrow> world" where
  "write_back w i st =
     w\<lparr>cls_analyzed_data := analyzed_data st,
       cls_ambig_words := ambig_words st,
       instances := (instances w)
         (i := \<lparr>own_raw_data = raw_data st,
                own_full_analyzed_data = full_analyzed_data st,
                own_processed_data = processed_data st\<rparr>)\<rparr>"

definition on_instance ::
  "(arabica \<Rightarrow> 'r \<times> arabica) \<Rightarrow> nat \<Rightarrow> world \<Rightarrow> 'r \<times> world" where
  "on_instance m i w = (case m (self_view w i) of (r, st) \<Rightarrow> (r, write_back w i st))"

section \<open>Sample collaborators and texts\<close>

text \<open>
  Candidates as the analyzer's contract describes them, for the word \<^verbatim>\<open>kyf\<close>
  (two analyses, which differ in every field and at position 2 of the solution string) and
  the word \<^verbatim>\<open>mn\<close> (one analysis); \<^verbatim>\<open>EE\<close> is a word the analyzer does not know.
\<close>

definition kyf :: pystr where
  "kyf = [1603, 1610, 1601]"

definition kiyf :: pystr where
  "kiyf = [1603, 1616, 1610, 1601]"

definition mn :: pystr where
  "mn = [1605, 1606]"

definition EE :: pystr where
  "EE = [1593, 1593]"

text \<open>Two texts of two words each, separated by a space.\<close>

definition kyf_mn :: pystr where
  "kyf_mn = kyf @ [32] @ mn"

definition mn_EE :: pystr where
  "mn_EE = mn @ [32] @ EE"

definition kyf_1 :: cand where
  "kyf_1 = [(KStr (py ''transl''), py ''kyf''), (KStr (py ''arabic''), kyf),
            (KStr (py ''solution''), py ''(kayofa) [kayofa_1]''),
            (KStr (py ''pos''), py ''kayofa/INTERROG_PART''),
            (KStr (py ''gloss''), py ''how'')]"

definition kyf_2 :: cand where
  "kyf_2 = [(KStr (py ''transl''), py ''kiyf''), (KStr (py ''arabic''), kiyf),
            (KStr (py ''solution''), py ''(kiyaf) [kiyaf_1]''),
            (KStr (py ''pos''), py ''kiyaf/NOUN''),
            (KStr (py ''gloss''), py ''adaptation'')]"

definition mn_1 :: cand where
  "mn_1 = [(KStr (py ''transl''), py ''mn''), (KStr (py ''arabic''), mn),
           (KStr (py ''solution''), py ''(min) [min_1]''),
           (KStr (py ''pos''), py ''min/PREP''),
           (KStr (py ''gloss''), py ''from'')]"

definition sample_full :: "cand list list" where
  "sample_full = [[kyf_1, kyf_2], [mn_1]]"

text \<open>
  An analyzer that knows a few texts, returns an empty analysis for any other text, and
  raises \<^verbatim>\<open>TypeError\<close> on \<^verbatim>\<open>None\<close>. A word it does not know gets no candidate.
\<close>

definition sample_analyzer :: "pystr option \<Rightarrow> py_error + (cand list list \<times> pystr list)" where
  "sample_analyzer txt =
     (case txt of
        None \<Rightarrow> Inl TypeError
      | Some t \<Rightarrow>
          if t = kyf then Inr ([[kyf_1, kyf_2]], [py ''kayofa'', py ''kiyaf''])
          else if t = mn then Inr ([[mn_1]], [py ''min''])
          else if t = EE then Inr ([[]], [])
          else if t = kyf_mn then Inr (sample_full, [py ''kayofa'', py ''kiyaf'', py ''min''])
          else if t = mn_EE then Inr ([[mn_1], []], [py ''min''])
          else Inr ([], []))"

definition sample :: collab where
  "sample = \<lparr>analyzer = sample_analyzer, stemmer = (\<lambda>w. w), uni2buck = (\<lambda>w. w), buck2uni = (\<lambda>w. w)\<rparr>"

text \<open>An analyzer that accepts \<^verbatim>\<open>None\<close> as it accepts the empty text.\<close>

definition lenient :: collab where
  "lenient = \<lparr>analyzer = (\<lambda>txt. Inr ([], [])), stemmer = (\<lambda>w. w), uni2buck = (\<lambda>w. w),
               buck2uni = (\<lambda>w. w)\<rparr>"

definition fresh :: "pystr option \<Rightarrow> arabica" where
  "fresh raw = \<lparr>raw_data = raw, analyzed_data = [], full_analyzed_data = [],
                processed_data = [], ambig_words = []\<rparr>"

definition fresh_world :: "pystr option \<Rightarrow> pystr option \<Rightarrow> world" where
  "fresh_world raw_a raw_b =
     \<lparr>cls_analyzed_data = [], cls_ambig_words = [],
      instances = (\<lambda>i. if i = 0 then new_own raw_a else new_own raw_b)\<rparr>"

section \<open>Facts about strings and keys\<close>

lemma py_eq_iff [simp]: "py a = py b \<longleftrightarrow> a = b"
  unfolding py_def using inj_of_char [where ?'a = nat]
  by (simp add: inj_map_eq_map)

lemma py_length [simp]: "length (py s) = length s"
  by (simp add: py_def)

section \<open>\<^verbatim>\<open>data_process\<close>: what a record holds\<close>

lemma item_step_solution:
  "solution (item_step acc kv) = (if fst kv = KStr (py ''solution'') then solution acc @ [snd kv] else solution acc)"
  by (simp add: item_step_def Let_def)

lemma item_step_pos:
  "pos (item_step acc kv) = (if fst kv = KStr (py ''pos'') then pos acc @ [snd kv] else pos acc)"
  by (simp add: item_step_def Let_def)

lemma item_step_gloss:
  "gloss (item_step acc kv) = (if fst kv = KStr (py ''gloss'') then gloss acc @ [snd kv] else gloss acc)"
  by (simp add: item_step_def Let_def)

lemma item_step_transl:
  "transl (item_step acc kv) = (if fst kv = KStr (py ''transl'') then snd kv else transl acc)"
  by (simp add: item_step_def Let_def)

lemma item_step_arabic:
  "arabic (item_step acc kv) = (if fst kv = KStr (py ''arabic'') then snd kv else arabic acc)"
  by (simp add: item_step_def Let_def)

lemma values_at_dict:
  "distinct (map fst c) \<Longrightarrow> map_of c k = Some v \<Longrightarrow> values_at k c = [v]"
  unfolding values_at_def
proof (induction c)
  case Nil then show ?case by simp
next
  case (Cons a c)
  show ?case
  proof (cases "fst a = k")
    case True
    with Cons.prems have "snd a = v" by (cases a) simp
    moreover from True Cons.prems(1) have "k \<notin> fst ` set c" by auto
    then have "filter (\<lambda>kv. fst kv = k) c = []"
      by (intro filter_False) blast
    ultimately show ?thesis using True by simp
  next
    case False
    with Cons show ?thesis by (cases a) auto
  qed
qed

lemma cand_step_solution:
  "solution (cand_step acc c) = solution acc @ values_at (KStr (py ''solution'')) c"
  unfolding cand_step_def values_at_def
  by (induction c arbitrary: acc) (simp_all add: item_step_solution)

lemma cand_step_pos:
  "pos (cand_step acc c) = pos acc @ values_at (KStr (py ''pos'')) c"
  unfolding cand_step_def values_at_def
  by (induction c arbitrary: acc) (simp_all add: item_step_pos)

lemma cand_step_gloss:
  "gloss (cand_step acc c) = gloss acc @ values_at (KStr (py ''gloss'')) c"
  unfolding cand_step_def values_at_def
  by (induction c arbitrary: acc) (simp_all add: item_step_gloss)

lemma cand_step_transl:
  "transl (cand_step acc c) = last (transl acc # values_at (KStr (py ''transl'')) c)"
  unfolding cand_step_def values_at_def
  by (induction c arbitrary: acc) (simp_all add: item_step_transl)

lemma cand_step_arabic:
  "arabic (cand_step acc c) = last (arabic acc # values_at (KStr (py ''arabic'')) c)"
  unfolding cand_step_def values_at_def
  by (induction c arbitrary: acc) (simp_all add: item_step_arabic)

lemma has_keysD:
  assumes "has_keys c" and "k \<in> set five_keys"
  shows "\<exists>v. map_of c k = Some v \<and> values_at k c = [v]"
proof -
  from assms have "k \<in> fst ` set c" by (auto simp: has_keys_def list_all_iff)
  then obtain v where "map_of c k = Some v"
    by (metis domD dom_map_of_conv_image_fst)
  moreover from assms(1) have "distinct (map fst c)" by (simp add: has_keys_def is_dict_def)
  ultimately show ?thesis using values_at_dict by blast
qed

lemma five_keys_mem:
  "KStr (py ''transl'') \<in> set five_keys" "KStr (py ''arabic'') \<in> set five_keys"
  "KStr (py ''solution'') \<in> set five_keys" "KStr (py ''pos'') \<in> set five_keys"
  "KStr (py ''gloss'') \<in> set five_keys"
  by (simp_all add: five_keys_def)

text \<open>With the contract, one candidate appends one entry to each list and overwrites both scalars.\<close>

lemma cand_step_contract:
  assumes "has_keys c"
  shows "map_of c (KStr (py ''transl'')) = Some (transl (cand_step acc c))"
    and "map_of c (KStr (py ''arabic'')) = Some (arabic (cand_step acc c))"
    and "\<exists>v. map_of c (KStr (py ''solution'')) = Some v \<and> solution (cand_step acc c) = solution acc @ [v]"
    and "\<exists>v. map_of c (KStr (py ''pos'')) = Some v \<and> pos (cand_step acc c) = pos acc @ [v]"
    and "\<exists>v. map_of c (KStr (py ''gloss'')) = Some v \<and> gloss (cand_step acc c) = gloss acc @ [v]"
  using has_keysD [OF assms five_keys_mem(1)] has_keysD [OF assms five_keys_mem(2)]
    has_keysD [OF assms five_keys_mem(3)] has_keysD [OF assms five_keys_mem(4)]
    has_keysD [OF assms five_keys_mem(5)]
  by (auto simp: cand_step_transl cand_step_arabic cand_step_solution cand_step_pos cand_step_gloss)

lemma foldl_cand_step_lists:
  assumes "\<forall>c \<in> set cs. has_keys c"
  shows "map Some (solution (foldl cand_step acc cs)) =
           map Some (solution acc) @ map (\<lambda>c. map_of c (KStr (py ''solution''))) cs
       \<and> map Some (pos (foldl cand_step acc cs)) =
           map Some (pos acc) @ map (\<lambda>c. map_of c (KStr (py ''pos''))) cs
       \<and> map Some (gloss (foldl cand_step acc cs)) =
           map Some (gloss acc) @ map (\<lambda>c. map_of c (KStr (py ''gloss''))) cs"
  using assms
proof (induction cs arbitrary: acc)
  case Nil
  then show ?case by simp
next
  case (Cons c cs)
  then have hc: "has_keys c" and hcs: "\<forall>c \<in> set cs. has_keys c" by simp_all
  from cand_step_contract(3-5) [OF hc, of acc] Cons.IH [OF hcs, of "cand_step acc c"]
  show ?case by auto
qed

lemma foldl_cand_step_scalars:
  assumes "\<forall>c \<in> set cs. has_keys c" and "cs \<noteq> []"
  shows "map_of (last cs) (KStr (py ''transl'')) = Some (transl (foldl cand_step acc cs))
       \<and> map_of (last cs) (KStr (py ''arabic'')) = Some (arabic (foldl cand_step acc cs))"
  using assms
proof (induction cs arbitrary: acc)
  case Nil
  then show ?case by simp
next
  case (Cons c cs)
  then have hc: "has_keys c" and hcs: "\<forall>c \<in> set cs. has_keys c" by simp_all
  show ?case
  proof (cases "cs = []")
    case True
    with cand_step_contract(1,2) [OF hc, of acc] show ?thesis by simp
  next
    case False
    with Cons.IH [OF hcs False, of "cand_step acc c"] show ?thesis by simp
  qed
qed


text \<open>
  Claim C3. After \<^verbatim>\<open>data_process\<close> there is one record per token, and in each
  record the lists \<^verbatim>\<open>solution\<close>, \<^verbatim>\<open>pos\<close> and \<^verbatim>\<open>gloss\<close> are as long as
  the token's list of candidates, when every candidate is a dict with the five expected
  keys.
\<close>

theorem data_process_parallel_lists:
  assumes "\<forall>cands \<in> set (full_analyzed_data st). \<forall>c \<in> set cands. has_keys c"
  shows "length (processed_data (data_process st)) = length (full_analyzed_data st) \<and>
         (\<forall>i < length (full_analyzed_data st).
            length (solution (processed_data (data_process st) ! i)) = length (full_analyzed_data st ! i) \<and>
            length (pos (processed_data (data_process st) ! i)) = length (full_analyzed_data st ! i) \<and>
            length (gloss (processed_data (data_process st) ! i)) = length (full_analyzed_data st ! i))"
proof -
  have "length (solution (token_record cands)) = length cands \<and>
        length (pos (token_record cands)) = length cands \<and>
        length (gloss (token_record cands)) = length cands"
    if "cands \<in> set (full_analyzed_data st)" for cands
  proof -
    from that assms have h: "\<forall>c \<in> set cands. has_keys c" by blast
    have l: "length (map Some xs) = length xs" for xs :: "pystr list" by simp
    from foldl_cand_step_lists [OF h, of token_init]
    have "length (map Some (solution (token_record cands))) = length cands"
      and "length (map Some (pos (token_record cands))) = length cands"
      and "length (map Some (gloss (token_record cands))) = length cands"
      by (simp_all add: token_record_def token_init_def)
    then show ?thesis by simp
  qed
  then show ?thesis by (simp add: data_process_def)
qed

theorem data_process_parallel_lists_witness:
  "sample_full = [[kyf_1, kyf_2], [mn_1]] \<and> has_keys kyf_1 \<and> has_keys kyf_2 \<and> has_keys mn_1 \<and>
   map (\<lambda>r. (length (solution r), length (pos r), length (gloss r)))
     (processed_data (data_process ((fresh None)\<lparr>full_analyzed_data := sample_full\<rparr>))) = [(2, 2, 2), (1, 1, 1)]"
proof -
  have h: "\<forall>cands \<in> set (full_analyzed_data ((fresh None)\<lparr>full_analyzed_data := sample_full\<rparr>)).
             \<forall>c \<in> set cands. has_keys c"
    by (simp add: sample_full_def has_keys_def is_dict_def five_keys_def kyf_1_def kyf_2_def mn_1_def)
  from data_process_parallel_lists [OF h] h show ?thesis
    by (simp add: sample_full_def list_eq_iff_nth_eq All_less_Suc2)
qed

text \<open>
  Claim C4. For a token with candidates, the record's \<^verbatim>\<open>transl\<close> and
  \<^verbatim>\<open>arabic\<close> are the values of the last candidate, while \<^verbatim>\<open>solution\<close>,
  \<^verbatim>\<open>pos\<close> and \<^verbatim>\<open>gloss\<close> hold the value of every candidate, in order.
\<close>

theorem data_process_scalar_last_list_all:
  assumes "i < length (full_analyzed_data st)"
    and "\<forall>c \<in> set (full_analyzed_data st ! i). has_keys c"
    and "full_analyzed_data st ! i \<noteq> []"
  shows "map_of (last (full_analyzed_data st ! i)) (KStr (py ''transl'')) =
           Some (transl (processed_data (data_process st) ! i)) \<and>
         map_of (last (full_analyzed_data st ! i)) (KStr (py ''arabic'')) =
           Some (arabic (processed_data (data_process st) ! i)) \<and>
         map (\<lambda>c. map_of c (KStr (py ''solution''))) (full_analyzed_data st ! i) =
           map Some (solution (processed_data (data_process st) ! i)) \<and>
         map (\<lambda>c. map_of c (KStr (py ''pos''))) (full_analyzed_data st ! i) =
           map Some (pos (processed_data (data_process st) ! i)) \<and>
         map (\<lambda>c. map_of c (KStr (py ''gloss''))) (full_analyzed_data st ! i) =
           map Some (gloss (processed_data (data_process st) ! i))"
proof -
  have r: "processed_data (data_process st) ! i = foldl cand_step token_init (full_analyzed_data st ! i)"
    using assms(1) by (simp add: data_process_def token_record_def)
  from foldl_cand_step_scalars [OF assms(2,3), of token_init]
    foldl_cand_step_lists [OF assms(2), of token_init]
  show ?thesis unfolding r by (simp add: token_init_def)
qed

theorem data_process_scalar_last_list_all_witness:
  "0 < length sample_full \<and> sample_full ! 0 = [kyf_1, kyf_2] \<and> has_keys kyf_1 \<and> has_keys kyf_2 \<and>
   transl (processed_data (data_process ((fresh None)\<lparr>full_analyzed_data := sample_full\<rparr>)) ! 0) = py ''kiyf'' \<and>
   arabic (processed_data (data_process ((fresh None)\<lparr>full_analyzed_data := sample_full\<rparr>)) ! 0) = kiyf \<and>
   solution (processed_data (data_process ((fresh None)\<lparr>full_analyzed_data := sample_full\<rparr>)) ! 0) =
     [py ''(kayofa) [kayofa_1]'', py ''(kiyaf) [kiyaf_1]''] \<and>
   pos (processed_data (data_process ((fresh None)\<lparr>full_analyzed_data := sample_full\<rparr>)) ! 0) =
     [py ''kayofa/INTERROG_PART'', py ''kiyaf/NOUN''] \<and>
   gloss (processed_data (data_process ((fresh None)\<lparr>full_analyzed_data := sample_full\<rparr>)) ! 0) =
     [py ''how'', py ''adaptation'']"
proof -
  let ?st = "(fresh None)\<lparr>full_analyzed_data := sample_full\<rparr>"
  have a: "0 < length (full_analyzed_data ?st)" by (simp add: sample_full_def)
  have b: "\<forall>c \<in> set (full_analyzed_data ?st ! 0). has_keys c"
    by (simp add: sample_full_def has_keys_def is_dict_def five_keys_def kyf_1_def kyf_2_def)
  have c: "full_analyzed_data ?st ! 0 \<noteq> []" by (simp add: sample_full_def)
  have m: "full_analyzed_data ?st ! 0 = [kyf_1, kyf_2]" by (simp add: sample_full_def)
  have v: "map_of kyf_2 (KStr (py ''transl'')) = Some (py ''kiyf'')"
    "map_of kyf_2 (KStr (py ''arabic'')) = Some kiyf"
    "map_of kyf_2 (KStr (py ''solution'')) = Some (py ''(kiyaf) [kiyaf_1]'')"
    "map_of kyf_2 (KStr (py ''pos'')) = Some (py ''kiyaf/NOUN'')"
    "map_of kyf_2 (KStr (py ''gloss'')) = Some (py ''adaptation'')"
    "map_of kyf_1 (KStr (py ''solution'')) = Some (py ''(kayofa) [kayofa_1]'')"
    "map_of kyf_1 (KStr (py ''pos'')) = Some (py ''kayofa/INTERROG_PART'')"
    "map_of kyf_1 (KStr (py ''gloss'')) = Some (py ''how'')"
    by (simp_all add: kyf_1_def kyf_2_def)
  from data_process_scalar_last_list_all [OF a b c]
  have "transl (processed_data (data_process ?st) ! 0) = py ''kiyf''"
    and "arabic (processed_data (data_process ?st) ! 0) = kiyf"
    and "solution (processed_data (data_process ?st) ! 0) =
           [py ''(kayofa) [kayofa_1]'', py ''(kiyaf) [kiyaf_1]'']"
    and "pos (processed_data (data_process ?st) ! 0) = [py ''kayofa/INTERROG_PART'', py ''kiyaf/NOUN'']"
    and "gloss (processed_data (data_process ?st) ! 0) = [py ''how'', py ''adaptation'']"
    unfolding m by (auto simp: v)
  moreover from a have "0 < length sample_full" by simp
  moreover from m have "sample_full ! 0 = [kyf_1, kyf_2]" by simp
  moreover from b m have "has_keys kyf_1" and "has_keys kyf_2" by simp_all
  ultimately show ?thesis by blast
qed

section \<open>\<^verbatim>\<open>ambig\<close>: the reported words\<close>

lemma subscript_str_2:
  "subscript_str sol (KInt 2) = (if 3 \<le> length sol then Inr [sol ! 2] else Inl IndexError)"
  by (auto simp: Let_def)

lemma position2_eq:
  "position2 temp sols =
     (if list_all (\<lambda>sol. 3 \<le> length sol) sols then Inr (temp @ map (\<lambda>sol. [sol ! 2]) sols)
      else Inl IndexError)"
  by (induction sols arbitrary: temp) (simp_all add: subscript_str_2)

lemma distinct_count_at_2:
  "length (remdups (map (\<lambda>sol. [sol ! 2]) sols)) = card ((\<lambda>sol. sol ! 2) ` set sols)"
proof -
  have "length (remdups (map (\<lambda>sol. [sol ! 2]) sols)) = card ((\<lambda>x. [x]) ` (\<lambda>sol. sol ! 2) ` set sols)"
    by (simp add: length_remdups_card_conv image_image)
  also have "\<dots> = card ((\<lambda>sol. sol ! 2) ` set sols)"
    by (rule card_image) (simp add: inj_on_def)
  finally show ?thesis .
qed

lemma ambig_loop_ok:
  assumes "\<forall>w \<in> set ws. long_enough w"
  shows "ambig_loop ws st =
           (Inr (), st\<lparr>ambig_words := ambig_words st @ map arabic (filter disagree_at_2 ws)\<rparr>)"
  using assms
proof (induction ws arbitrary: st)
  case Nil
  then show ?case by simp
next
  case (Cons w ws)
  then have w: "long_enough w" and ws: "\<forall>w \<in> set ws. long_enough w" by simp_all
  from w have p: "position2 [] (solution w) = Inr (map (\<lambda>sol. [sol ! 2]) (solution w))"
    by (simp add: position2_eq long_enough_def)
  show ?case
    by (simp add: p Cons.IH [OF ws] distinct_count_at_2 disagree_at_2_def)
qed

lemma ambig_loop_result:
  "fst (ambig_loop ws st) = (if \<forall>w \<in> set ws. long_enough w then Inr () else Inl IndexError)"
proof (induction ws arbitrary: st)
  case Nil
  then show ?case by simp
next
  case (Cons w ws)
  show ?case
  proof (cases "long_enough w")
    case True
    then have p: "position2 [] (solution w) = Inr (map (\<lambda>sol. [sol ! 2]) (solution w))"
      by (simp add: position2_eq long_enough_def)
    show ?thesis using True by (simp add: p Cons.IH)
  next
    case False
    then have p: "position2 [] (solution w) = Inl IndexError"
      by (simp add: position2_eq long_enough_def)
    show ?thesis using False by (simp add: p)
  qed
qed

lemma sample_processed_eq:
  "processed_data (data_process ((fresh None)\<lparr>full_analyzed_data := sample_full\<rparr>)) =
     [\<lparr>transl = py ''kiyf'', arabic = kiyf,
       solution = [py ''(kayofa) [kayofa_1]'', py ''(kiyaf) [kiyaf_1]''],
       pos = [py ''kayofa/INTERROG_PART'', py ''kiyaf/NOUN''],
       gloss = [py ''how'', py ''adaptation'']\<rparr>,
      \<lparr>transl = py ''mn'', arabic = mn, solution = [py ''(min) [min_1]''],
       pos = [py ''min/PREP''], gloss = [py ''from'']\<rparr>]"
  by (simp add: data_process_def fresh_def sample_full_def token_record_def token_init_def
      cand_step_def item_step_def Let_def kyf_1_def kyf_2_def mn_1_def)

text \<open>
  Claim C5. When every solution string has a position 2, \<^verbatim>\<open>ambig\<close> appends the
  \<^verbatim>\<open>arabic\<close> form of exactly the records whose solution strings take more than one
  value at position 2, in the order of \<^verbatim>\<open>processed_data\<close> and without removing
  duplicates.
\<close>

theorem ambig_appends_disagreeing:
  assumes "\<forall>w \<in> set (processed_data st). \<forall>sol \<in> set (solution w). 3 \<le> length sol"
  shows "ambig st =
           (Inr (), st\<lparr>ambig_words :=
              ambig_words st @
              map arabic (filter (\<lambda>w. 1 < card ((\<lambda>sol. sol ! 2) ` set (solution w)))
                                 (processed_data st))\<rparr>)"
proof -
  from assms have "\<forall>w \<in> set (processed_data st). long_enough w"
    by (simp add: long_enough_def list_all_iff)
  then have "ambig st =
     (Inr (), st\<lparr>ambig_words := ambig_words st @ map arabic (filter disagree_at_2 (processed_data st))\<rparr>)"
    unfolding ambig_def by (rule ambig_loop_ok)
  moreover have "disagree_at_2 = (\<lambda>w. 1 < card ((\<lambda>sol. sol ! 2) ` set (solution w)))"
    by (rule ext) (simp add: disagree_at_2_def)
  ultimately show ?thesis by simp
qed

theorem ambig_appends_disagreeing_witness:
  "list_all (\<lambda>w. list_all (\<lambda>sol. 3 \<le> length sol) (solution w))
     (processed_data (data_process ((fresh None)\<lparr>full_analyzed_data := sample_full\<rparr>))) \<and>
   fst (ambig (data_process ((fresh None)\<lparr>full_analyzed_data := sample_full\<rparr>))) = Inr () \<and>
   ambig_words (snd (ambig (data_process ((fresh None)\<lparr>full_analyzed_data := sample_full\<rparr>)))) = [kiyf]"
proof -
  let ?st = "data_process ((fresh None)\<lparr>full_analyzed_data := sample_full\<rparr>)"
  have h: "\<forall>w \<in> set (processed_data ?st). \<forall>sol \<in> set (solution w). 3 \<le> length sol"
    unfolding sample_processed_eq by simp
  have d: "filter (\<lambda>w. 1 < card ((\<lambda>sol. sol ! 2) ` set (solution w))) (processed_data ?st) =
             [hd (processed_data ?st)]"
    unfolding sample_processed_eq by (simp add: py_def card_insert_if)
  have w: "ambig_words ?st = []" by (simp add: data_process_def fresh_def)
  from ambig_appends_disagreeing [OF h] h show ?thesis
    unfolding d by (simp add: w list_all_iff) (simp add: sample_processed_eq)
qed

text \<open>
  Claim C10. \<^verbatim>\<open>ambig\<close> returns normally exactly when every solution string of every
  record has length at least 3, and raises \<^verbatim>\<open>IndexError\<close> exactly when one is shorter;
  it always ends in one of the two.
\<close>

theorem ambig_index_fault_iff:
  "(fst (ambig st) = Inr () \<longleftrightarrow>
      (\<forall>w \<in> set (processed_data st). \<forall>sol \<in> set (solution w). 3 \<le> length sol)) \<and>
   (fst (ambig st) = Inl IndexError \<longleftrightarrow>
      \<not> (\<forall>w \<in> set (processed_data st). \<forall>sol \<in> set (solution w). 3 \<le> length sol))"
  by (simp add: ambig_def ambig_loop_result long_enough_def list_all_iff)

theorem ambig_index_fault_iff_witness:
  "list_all (\<lambda>w. list_all (\<lambda>sol. 3 \<le> length sol) (solution w))
     (processed_data (data_process ((fresh None)\<lparr>full_analyzed_data := sample_full\<rparr>))) \<and>
   fst (ambig (data_process ((fresh None)\<lparr>full_analyzed_data := sample_full\<rparr>))) = Inr () \<and>
   \<not> (\<forall>w \<in> set (processed_data ((fresh None)\<lparr>processed_data := [\<lparr>transl = py ''mn'', arabic = mn, solution = [py ''mn''], pos = [], gloss = []\<rparr>]\<rparr>)).
      \<forall>sol \<in> set (solution w). 3 \<le> length sol) \<and>
   fst (ambig ((fresh None)\<lparr>processed_data := [\<lparr>transl = py ''mn'', arabic = mn, solution = [py ''mn''], pos = [], gloss = []\<rparr>]\<rparr>)) = Inl IndexError"
proof -
  let ?st = "data_process ((fresh None)\<lparr>full_analyzed_data := sample_full\<rparr>)"
  let ?bad = "(fresh None)\<lparr>processed_data := [\<lparr>transl = py ''mn'', arabic = mn, solution = [py ''mn''], pos = [], gloss = []\<rparr>]\<rparr>"
  have h: "\<forall>w \<in> set (processed_data ?st). \<forall>sol \<in> set (solution w). 3 \<le> length sol"
    unfolding sample_processed_eq by simp
  have b: "\<not> (\<forall>w \<in> set (processed_data ?bad). \<forall>sol \<in> set (solution w). 3 \<le> length sol)"
    by simp
  from h have "list_all (\<lambda>w. list_all (\<lambda>sol. 3 \<le> length sol) (solution w)) (processed_data ?st)"
    by (simp add: list_all_iff)
  with ambig_index_fault_iff [of ?st] ambig_index_fault_iff [of ?bad] h b show ?thesis
    by blast
qed

section \<open>\<^verbatim>\<open>analyze_text\<close> without a text\<close>

lemma fresh_sel:
  "raw_data (fresh r) = r" "analyzed_data (fresh r) = []" "full_analyzed_data (fresh r) = []"
  "processed_data (fresh r) = []" "ambig_words (fresh r) = []"
  by (simp_all add: fresh_def)

lemma data_process_sel:
  "raw_data (data_process st) = raw_data st" "analyzed_data (data_process st) = analyzed_data st"
  "full_analyzed_data (data_process st) = full_analyzed_data st"
  "ambig_words (data_process st) = ambig_words st"
  by (simp_all add: data_process_def)

lemma sample_analyzer_texts:
  "sample_analyzer None = Inl TypeError"
  "sample_analyzer (Some kyf) = Inr ([[kyf_1, kyf_2]], [py ''kayofa'', py ''kiyaf''])"
  "sample_analyzer (Some EE) = Inr ([[]], [])"
  "sample_analyzer (Some kyf_mn) = Inr (sample_full, [py ''kayofa'', py ''kiyaf'', py ''min''])"
  "sample_analyzer (Some mn_EE) = Inr ([[mn_1], []], [py ''min''])"
  by (simp_all add: sample_analyzer_def kyf_def mn_def EE_def kyf_mn_def mn_EE_def)

lemma analyze_text_sample:
  "analyze_text sample (fresh None) = (Inl TypeError, fresh None)"
  "analyze_text sample (fresh (Some kyf)) =
     (Inr [[kyf_1, kyf_2]], data_process ((fresh (Some kyf))\<lparr>full_analyzed_data := [[kyf_1, kyf_2]]\<rparr>))"
  "analyze_text sample (fresh (Some EE)) =
     (Inr [[]], data_process ((fresh (Some EE))\<lparr>full_analyzed_data := [[]]\<rparr>))"
  "analyze_text sample (fresh (Some kyf_mn)) =
     (Inr sample_full, data_process ((fresh (Some kyf_mn))\<lparr>full_analyzed_data := sample_full\<rparr>))"
  "analyze_text sample (fresh (Some mn_EE)) =
     (Inr [[mn_1], []], data_process ((fresh (Some mn_EE))\<lparr>full_analyzed_data := [[mn_1], []]\<rparr>))"
  by (simp_all add: analyze_text_def sample_def sample_analyzer_texts fresh_sel data_process_sel Let_def)

lemma no_key_0:
  "subscript_dict kyf_1 (KInt 0) = Inl KeyError" "subscript_dict mn_1 (KInt 0) = Inl KeyError"
  by (simp_all add: subscript_dict_def kyf_1_def mn_1_def)

text \<open>
  Claim C7, as stated: with \<^verbatim>\<open>raw_data\<close> absent, \<^verbatim>\<open>analyze_text\<close> fails with
  the "no input provided" condition. It does not: the sample analyzer's own
  \<^verbatim>\<open>TypeError\<close> reaches the caller, and with an analyzer that accepts \<^verbatim>\<open>None\<close>
  the call returns.
\<close>

theorem analyze_text_no_input_counterexample:
  "raw_data (fresh None) = None \<and>
   fst (analyze_text sample (fresh None)) = Inl TypeError \<and>
   fst (analyze_text sample (fresh None)) \<noteq> Inl InputError \<and>
   fst (analyze_text lenient (fresh None)) = Inr []"
  by (simp add: analyze_text_sample fresh_sel) (simp add: analyze_text_def lenient_def fresh_sel data_process_sel Let_def)

text \<open>
  Claim C7, amended. With \<^verbatim>\<open>raw_data\<close> absent, \<^verbatim>\<open>analyze_text\<close> hands
  \<^verbatim>\<open>None\<close> to the analyzer unchecked: it raises what the analyzer raises on
  \<^verbatim>\<open>None\<close>, and returns element 0 of the analyzer's result otherwise.
\<close>

theorem analyze_text_hands_none_to_analyzer:
  assumes "raw_data st = None"
  shows "fst (analyze_text c st) =
           (case analyzer c None of Inl e \<Rightarrow> Inl e | Inr data \<Rightarrow> Inr (fst data))"
  using assms by (simp add: analyze_text_def data_process_sel Let_def split: sum.splits)

theorem analyze_text_hands_none_to_analyzer_witness:
  "raw_data (fresh None) = None \<and> analyzer sample None = Inl TypeError \<and>
   fst (analyze_text sample (fresh None)) = Inl TypeError"
proof -
  have r: "raw_data (fresh None) = None" by (simp add: fresh_sel)
  have a: "analyzer sample None = Inl TypeError" by (simp add: sample_def sample_analyzer_texts)
  from analyze_text_hands_none_to_analyzer [OF r, of sample] r a show ?thesis by simp
qed

section \<open>\<^verbatim>\<open>extract_data\<close>: the unpacking and the lookup\<close>

text \<open>
  \<^verbatim>\<open>analyze_text\<close> already returns element 0 of the analyzer's pair, so the
  unpacking in \<^verbatim>\<open>extract_data\<close> splits the list of tokens, and the loop runs over
  the candidates of the first token. Each of them is a dict with string values: the lookup
  of the key \<^verbatim>\<open>0\<close> raises \<^verbatim>\<open>KeyError\<close>, and even a value found there could not be
  subscripted by \<^verbatim>\<open>'transl'\<close>. For every analyzer, then, no record is ever appended,
  and the call returns only for an analysis of two tokens whose first has no candidate.
\<close>

lemma extract_record_raises:
  "extract_record c d = (case map_of d (KInt 0) of None \<Rightarrow> Inl KeyError | Some v \<Rightarrow> Inl TypeError)"
  by (simp add: extract_record_def subscript_dict_def split: option.splits)

lemma extract_loop_eq:
  "extract_loop c data st =
     (case data of [] \<Rightarrow> (Inr (), st)
      | d # ds \<Rightarrow> (case map_of d (KInt 0) of None \<Rightarrow> (Inl KeyError, st) | Some v \<Rightarrow> (Inl TypeError, st)))"
  by (cases data) (simp_all add: extract_record_raises split: option.splits)

lemma analyze_text_analyzed_data:
  "analyzed_data (snd (analyze_text c st)) = analyzed_data st"
  by (simp add: analyze_text_def data_process_def Let_def split: sum.splits)

lemma extract_data_appends_nothing:
  "analyzed_data (snd (extract_data c st)) = analyzed_data st"
proof -
  obtain r st1 where a: "analyze_text c st = (r, st1)" by (cases "analyze_text c st")
  with analyze_text_analyzed_data [of c st] have s: "analyzed_data st1 = analyzed_data st" by simp
  show ?thesis
    by (simp add: extract_data_def a s extract_loop_eq
        split: sum.splits prod.splits list.splits option.splits)
qed

lemma extract_data_returns_iff:
  "(\<exists>r. fst (extract_data c st) = Inr r) \<longleftrightarrow> (\<exists>rest. fst (analyze_text c st) = Inr [[], rest])"
proof -
  obtain r st1 where a: "analyze_text c st = (r, st1)" by (cases "analyze_text c st")
  show ?thesis
    by (auto simp: extract_data_def a extract_loop_eq unpack2_def
        split: sum.splits prod.splits list.splits option.splits)
qed

text \<open>
  Claim C1 says that \<^verbatim>\<open>extract_data\<close> appends one record per token. On the text
  \<^verbatim>\<open>kyf mn\<close> (two tokens) it raises \<^verbatim>\<open>KeyError\<close>, on the text \<^verbatim>\<open>kyf\<close> (one
  token) \<^verbatim>\<open>ValueError\<close>, and \<^verbatim>\<open>analyzed_data\<close> stays empty.
\<close>

theorem extract_data_raises:
  "fst (analyze_text sample (fresh (Some kyf_mn))) = Inr [[kyf_1, kyf_2], [mn_1]] \<and>
   fst (extract_data sample (fresh (Some kyf_mn))) = Inl KeyError \<and>
   analyzed_data (snd (extract_data sample (fresh (Some kyf_mn)))) = [] \<and>
   fst (analyze_text sample (fresh (Some kyf))) = Inr [[kyf_1, kyf_2]] \<and>
   fst (extract_data sample (fresh (Some kyf))) = Inl ValueError \<and>
   analyzed_data (snd (extract_data sample (fresh (Some kyf)))) = []"
  by (simp add: extract_data_def analyze_text_sample sample_full_def unpack2_def extract_record_def
      no_key_0 data_process_sel fresh_sel)

section \<open>\<^verbatim>\<open>search\<close>\<close>

text \<open>Whenever \<^verbatim>\<open>search\<close> returns, its result is the set that its loop selects.\<close>

lemma search_result_when_returns:
  assumes "fst (search c key st) = Inr r"
  shows "r = x_arabic ` {e \<in> set (analyzed_data (snd (extract_data c st))).
                            root_transl e = transliteration c (stem c key)}"
proof -
  obtain res st1 where e: "extract_data c st = (res, st1)" by (cases "extract_data c st")
  from assms e obtain data where d: "res = Inr data"
    by (cases res) (simp_all add: search_def Let_def)
  from e d have "data = analyzed_data st1"
    by (auto simp: extract_data_def split: sum.splits prod.splits)
  with assms e d show ?thesis
    by (auto simp: search_def Let_def)
qed


text \<open>
  Claim C2 says that \<^verbatim>\<open>search\<close> returns the matching surface forms for every key and
  state. On the texts \<^verbatim>\<open>kyf mn\<close> and \<^verbatim>\<open>kyf\<close> the call raises the exception of
  \<^verbatim>\<open>extract_data\<close> instead of returning a set.
\<close>

theorem search_raises:
  "fst (search sample kyf (fresh (Some kyf_mn))) = Inl KeyError \<and>
   fst (search sample kyf (fresh (Some kyf))) = Inl ValueError"
  by (simp add: search_def extract_data_def analyze_text_sample sample_full_def unpack2_def
      extract_record_def no_key_0 Let_def)

section \<open>\<^verbatim>\<open>extract_data\<close> called twice\<close>

text \<open>
  Claim C8 says that two calls in succession leave two copies of the records in
  \<^verbatim>\<open>analyzed_data\<close>. On the text \<^verbatim>\<open>kyf mn\<close> both calls raise and the list stays
  empty.
\<close>

theorem extract_data_twice_no_copies:
  "fst (extract_data sample (fresh (Some kyf_mn))) = Inl KeyError \<and>
   fst (extract_data sample (snd (extract_data sample (fresh (Some kyf_mn))))) = Inl KeyError \<and>
   analyzed_data (snd (extract_data sample (snd (extract_data sample (fresh (Some kyf_mn)))))) = []"
proof -
  let ?st = "fresh (Some kyf_mn)"
  let ?st1 = "data_process (?st\<lparr>full_analyzed_data := sample_full\<rparr>)"
  have one: "extract_data sample ?st = (Inl KeyError, ?st1)"
    by (simp add: extract_data_def analyze_text_sample sample_full_def unpack2_def
        extract_record_def no_key_0)
  have a: "analyze_text sample ?st1 = (Inr sample_full, data_process (?st1\<lparr>full_analyzed_data := sample_full\<rparr>))"
    by (simp add: analyze_text_def sample_def sample_analyzer_texts fresh_sel data_process_sel Let_def)
  have two: "extract_data sample ?st1 = (Inl KeyError, data_process (?st1\<lparr>full_analyzed_data := sample_full\<rparr>))"
    by (simp add: extract_data_def a) (simp add: sample_full_def unpack2_def extract_record_def no_key_0)
  show ?thesis by (simp add: one two data_process_sel fresh_sel)
qed

section \<open>\<^verbatim>\<open>extract_data\<close> and a token without candidates\<close>

text \<open>
  \<^verbatim>\<open>data_process\<close>, which the same call runs first, gives a token without
  candidates a record whose fields are all empty.
\<close>

lemma token_record_no_candidates:
  "token_record [] = \<lparr>transl = [], arabic = [], solution = [], pos = [], gloss = []\<rparr>"
  by (simp add: token_record_def token_init_def)

text \<open>
  Claim C6 says that a token without candidates is skipped or gets a record with empty
  root fields, without a fault. On the text \<^verbatim>\<open>mn EE\<close>, whose second token has no
  candidate, \<^verbatim>\<open>extract_data\<close> raises \<^verbatim>\<open>KeyError\<close>, and on the text \<^verbatim>\<open>EE\<close>
  it raises \<^verbatim>\<open>ValueError\<close>: no list is returned and no record is appended, while
  \<^verbatim>\<open>processed_data\<close> holds the empty record for that token.
\<close>

theorem extract_data_zero_candidates_raises:
  "fst (analyze_text sample (fresh (Some mn_EE))) = Inr [[mn_1], []] \<and>
   fst (extract_data sample (fresh (Some mn_EE))) = Inl KeyError \<and>
   analyzed_data (snd (extract_data sample (fresh (Some mn_EE)))) = [] \<and>
   processed_data (snd (extract_data sample (fresh (Some mn_EE)))) ! 1 =
     \<lparr>transl = [], arabic = [], solution = [], pos = [], gloss = []\<rparr> \<and>
   fst (analyze_text sample (fresh (Some EE))) = Inr [[]] \<and>
   fst (extract_data sample (fresh (Some EE))) = Inl ValueError \<and>
   analyzed_data (snd (extract_data sample (fresh (Some EE)))) = [] \<and>
   processed_data (snd (extract_data sample (fresh (Some EE)))) =
     [\<lparr>transl = [], arabic = [], solution = [], pos = [], gloss = []\<rparr>]"
proof -
  have two: "extract_data sample (fresh (Some mn_EE)) =
      (Inl KeyError, data_process ((fresh (Some mn_EE))\<lparr>full_analyzed_data := [[mn_1], []]\<rparr>))"
    by (simp add: extract_data_def analyze_text_sample unpack2_def extract_record_def no_key_0)
  have one: "extract_data sample (fresh (Some EE)) =
      (Inl ValueError, data_process ((fresh (Some EE))\<lparr>full_analyzed_data := [[]]\<rparr>))"
    by (simp add: extract_data_def analyze_text_sample unpack2_def)
  show ?thesis
    unfolding two one
    by (simp add: analyze_text_sample data_process_sel fresh_sel)
       (simp add: data_process_def token_record_no_candidates)
qed

section \<open>Two instances\<close>

text \<open>
  The attributes that a method assigns stay with the instance it was called on: a call on
  instance \<open>i\<close> leaves them unchanged in every other instance.
\<close>

lemma on_instance_other_own:
  "i \<noteq> j \<Longrightarrow> instances (snd (on_instance m i w)) j = instances w j"
  by (simp add: on_instance_def write_back_def split: prod.splits)

text \<open>
  Claim C9 says that what one instance does leaves the cached fields read through another
  instance unchanged. After \<^verbatim>\<open>analyze_text\<close> and \<^verbatim>\<open>ambig\<close> on instance 0,
  instance 1, on which nothing was called, reads the word in its \<^verbatim>\<open>ambig_words\<close>.
\<close>

theorem ambig_words_shared_between_instances:
  "ambig_words (self_view (fresh_world (Some kyf) None) 1) = [] \<and>
   fst (on_instance (analyze_text sample) 0 (fresh_world (Some kyf) None)) = Inr [[kyf_1, kyf_2]] \<and>
   fst (on_instance ambig 0 (snd (on_instance (analyze_text sample) 0 (fresh_world (Some kyf) None)))) = Inr () \<and>
   ambig_words (self_view (snd (on_instance ambig 0
       (snd (on_instance (analyze_text sample) 0 (fresh_world (Some kyf) None))))) 1) = [kiyf]"
proof -
  let ?w = "fresh_world (Some kyf) None"
  have v: "self_view ?w 0 = fresh (Some kyf)"
    by (simp add: self_view_def fresh_world_def new_own_def fresh_def)
  have p: "processed_data (data_process ((fresh (Some kyf))\<lparr>full_analyzed_data := [[kyf_1, kyf_2]]\<rparr>)) =
     [\<lparr>transl = py ''kiyf'', arabic = kiyf,
       solution = [py ''(kayofa) [kayofa_1]'', py ''(kiyaf) [kiyaf_1]''],
       pos = [py ''kayofa/INTERROG_PART'', py ''kiyaf/NOUN''],
       gloss = [py ''how'', py ''adaptation'']\<rparr>]"
    by (simp add: data_process_def fresh_def token_record_def token_init_def
      cand_step_def item_step_def Let_def kyf_1_def kyf_2_def)
  let ?st1 = "data_process ((fresh (Some kyf))\<lparr>full_analyzed_data := [[kyf_1, kyf_2]]\<rparr>)"
  let ?w1 = "write_back ?w 0 ?st1"
  have w1: "on_instance (analyze_text sample) 0 ?w = (Inr [[kyf_1, kyf_2]], ?w1)"
    by (simp add: on_instance_def v analyze_text_sample)
  have v1: "self_view ?w1 0 = ?st1"
    by (simp add: self_view_def write_back_def fresh_world_def data_process_def fresh_def)
  have a: "ambig ?st1 = (Inr (), ?st1\<lparr>ambig_words := [kiyf]\<rparr>)"
    by (simp add: ambig_def p py_def data_process_sel fresh_sel)
  have w2: "on_instance ambig 0 ?w1 = (Inr (), write_back ?w1 0 (?st1\<lparr>ambig_words := [kiyf]\<rparr>))"
    unfolding on_instance_def v1 a by simp
  have before: "ambig_words (self_view ?w 1) = []"
    by (simp add: self_view_def fresh_world_def)
  have after: "ambig_words (self_view (write_back ?w1 0 (?st1\<lparr>ambig_words := [kiyf]\<rparr>)) 1) = [kiyf]"
    by (simp add: self_view_def write_back_def)
  show ?thesis
    unfolding w1 snd_conv fst_conv w2 using before after by simp
qed


end
